theory Spec2Isabelle
  imports Main
begin

section \<open>Site data\<close>

text \<open>
  The static content arrays of \<^verbatim>\<open>src/App.jsx\<close>. JavaScript strings are modelled as
  \<open>string\<close>; every literal of the source used here is ASCII.
\<close>

record document =
  doc_id :: nat
  doc_name :: string
  doc_url :: string
  doc_size :: string
  doc_notes :: string

definition FACTORY_DOCS :: "document list" where
  "FACTORY_DOCS =
     [\<lparr>doc_id = 1, doc_name = ''Factory Service Manual - 1997 XJ.pdf'',
       doc_url = ''/factory-docs/1997-xj-service-manual.pdf'',
       doc_size = ''8.2 MB'', doc_notes = ''Scanned.''\<rparr>,
      \<lparr>doc_id = 2, doc_name = ''Wiring Diagrams - Full.pdf'',
       doc_url = ''/factory-docs/wiring-diagrams.pdf'',
       doc_size = ''3.9 MB'', doc_notes = ''Color scan.''\<rparr>]"

record image =
  img_id :: nat
  img_title :: string
  img_src :: string

definition GALLERY :: "image list" where
  "GALLERY =
     [\<lparr>img_id = 1, img_title = ''1968 AMX swap fitment'', img_src = ''/images/build-1.jpg''\<rparr>,
      \<lparr>img_id = 2, img_title = ''Roll cage mockup'', img_src = ''/images/build-2.jpg''\<rparr>,
      \<lparr>img_id = 3, img_title = ''Trail ready XJ'', img_src = ''/images/build-3.jpg''\<rparr>]"


section \<open>JavaScript string operations used by the router\<close>

text \<open>
  \<^verbatim>\<open>s.replace('#', '')\<close> with a string pattern removes the first occurrence of the
  pattern only, and returns \<^verbatim>\<open>s\<close> when there is none.
\<close>

fun js_replace_hash :: "string \<Rightarrow> string" where
  "js_replace_hash [] = []"
| "js_replace_hash (c # cs) = (if c = CHR ''#'' then cs else c # js_replace_hash cs)"

text \<open>\<^verbatim>\<open>s || d\<close> on strings: the empty string is the only falsy string.\<close>

definition js_or :: "string \<Rightarrow> string \<Rightarrow> string" where
  "js_or s d = (if s = [] then d else s)"

text \<open>\<^verbatim>\<open>xs.includes(x)\<close> on an array of strings.\<close>

definition js_includes :: "string list \<Rightarrow> string \<Rightarrow> bool" where
  "js_includes xs x = (x \<in> set xs)"


section \<open>Host environment: the address fragment and its change event\<close>

text \<open>
  The router calls into the browser: it reads and writes \<^verbatim>\<open>window.location.hash\<close>
  and listens to \<^verbatim>\<open>hashchange\<close> on \<^verbatim>\<open>window\<close>. The part of the browser it touches
  is the record below. A listener is a function object; it is identified by a number, so
  that two closures of the same source text stay distinct.
\<close>

record browser =
  fragment :: string        \<comment> \<open>the fragment of the document's URL, without the \<^verbatim>\<open>#\<close>\<close>
  listeners :: "nat list"   \<comment> \<open>the \<^verbatim>\<open>hashchange\<close> listeners of \<^verbatim>\<open>window\<close>, in order\<close>
  queued :: nat             \<comment> \<open>\<^verbatim>\<open>hashchange\<close> events queued and not yet dispatched\<close>

text \<open>
  The getter of \<^verbatim>\<open>location.hash\<close>: the empty string when the fragment is absent or
  empty, otherwise \<^verbatim>\<open>#\<close> followed by the fragment.
\<close>

definition location_hash :: "'a browser_scheme \<Rightarrow> string" where
  "location_hash b = (if fragment b = [] then [] else CHR ''#'' # fragment b)"

text \<open>
  The setter of \<^verbatim>\<open>location.hash\<close> removes a single leading \<^verbatim>\<open>#\<close> from the given
  value and runs the URL parser on the rest in its fragment state: tabs and newlines are
  dropped, and the bytes of the fragment percent-encode set (C0 controls, everything above
  \<^verbatim>\<open>~\<close>, space, \<^verbatim>\<open>"\<close>, \<^verbatim>\<open><\<close>, \<^verbatim>\<open>>\<close> and the backquote) are percent-encoded. Strings
  stand for their UTF-8 bytes.
\<close>

definition strip_leading_hash :: "string \<Rightarrow> string" where
  "strip_leading_hash s = (case s of [] \<Rightarrow> [] | c # cs \<Rightarrow> if c = CHR ''#'' then cs else s)"

definition ascii_tab_or_newline :: "char \<Rightarrow> bool" where
  "ascii_tab_or_newline c = ((of_char c :: nat) = 9 \<or> (of_char c :: nat) = 10 \<or> (of_char c :: nat) = 13)"

definition fragment_percent_encode_set :: "char \<Rightarrow> bool" where
  "fragment_percent_encode_set c =
     ((of_char c :: nat) < 32 \<or> 126 < (of_char c :: nat) \<or> (of_char c :: nat) = 32 \<or>
      (of_char c :: nat) = 34 \<or> (of_char c :: nat) = 60 \<or> (of_char c :: nat) = 62 \<or>
      (of_char c :: nat) = 96)"

definition hex_digit :: "nat \<Rightarrow> char" where
  "hex_digit n = ''0123456789ABCDEF'' ! (n mod 16)"

definition percent_encode :: "char \<Rightarrow> string" where
  "percent_encode c =
     [CHR ''%'', hex_digit ((of_char c :: nat) div 16), hex_digit ((of_char c :: nat) mod 16)]"

definition parse_fragment :: "string \<Rightarrow> string" where
  "parse_fragment input =
     concat (map (\<lambda>c. if fragment_percent_encode_set c then percent_encode c else [c])
                 (filter (\<lambda>c. \<not> ascii_tab_or_newline c) input))"

definition hash_fragment :: "string \<Rightarrow> string" where
  "hash_fragment v = parse_fragment (strip_leading_hash v)"

text \<open>
  Moving to another fragment queues one \<^verbatim>\<open>hashchange\<close> event; the event is delivered
  later, not inside the assignment. Assigning the fragment the URL already has does nothing.
\<close>

definition go_to_fragment :: "string \<Rightarrow> 'a browser_scheme \<Rightarrow> 'a browser_scheme" where
  "go_to_fragment f b =
     (if f = fragment b then b else b\<lparr>fragment := f, queued := queued b + 1\<rparr>)"

definition location_hash_set :: "string \<Rightarrow> 'a browser_scheme \<Rightarrow> 'a browser_scheme" where
  "location_hash_set v b = go_to_fragment (hash_fragment v) b"

text \<open>
  \<^verbatim>\<open>addEventListener\<close> ignores a listener that is already registered;
  \<^verbatim>\<open>removeEventListener\<close> removes the registered listener that is the given function
  object, and nothing else.
\<close>

definition addEventListener :: "nat \<Rightarrow> nat list \<Rightarrow> nat list" where
  "addEventListener h ls = (if h \<in> set ls then ls else ls @ [h])"

definition removeEventListener :: "nat \<Rightarrow> nat list \<Rightarrow> nat list" where
  "removeEventListener h ls = remove1 h ls"

text \<open>A function expression evaluates to a function object that did not exist before.\<close>

definition new_closure :: "nat list \<Rightarrow> nat" where
  "new_closure ls = Suc (fold max ls 0)"


section \<open>The tiny router: \<^verbatim>\<open>useRoute\<close>\<close>

text \<open>
  One mounted instance of the hook, on top of the browser it lives in. \<open>route\<close> is the
  \<^verbatim>\<open>useState\<close> cell; \<open>onHash\<close> is the listener the effect registered, \<open>None\<close> once the
  effect's cleanup has run; \<open>rerenders\<close> counts the calls of \<^verbatim>\<open>App\<close> that
  \<^verbatim>\<open>setRoute\<close> has caused, which is how the components that read \<open>route\<close> learn of a
  change; \<open>stale\<close> says that a route change has been rendered and React has not yet
  cleared the update mark it left on the component.
\<close>

record app = browser +
  route :: string
  onHash :: "nat option"
  rerenders :: nat
  stale :: bool

text \<open>The expression \<^verbatim>\<open>window.location.hash.replace('#', '') || '/'\<close> of lines 58 and 60.\<close>

definition read_route :: "'a browser_scheme \<Rightarrow> string" where
  "read_route b = js_or (js_replace_hash (location_hash b)) ''/''"

text \<open>
  React's state setter. Another value is stored and \<^verbatim>\<open>App\<close> is called again; the
  render leaves an update mark on the component. A value identical to the current state
  changes no state; React drops it at once when the component carries no update mark, as
  after the mount, and otherwise calls \<^verbatim>\<open>App\<close> once more, finds the state unchanged,
  skips the children and clears the mark.
\<close>

definition setRoute :: "string \<Rightarrow> app \<Rightarrow> app" where
  "setRoute v a =
     (if v = route a
      then (if stale a then a\<lparr>rerenders := rerenders a + 1, stale := False\<rparr> else a)
      else a\<lparr>route := v, rerenders := rerenders a + 1, stale := True\<rparr>)"

text \<open>
  Mounting: the first render initialises the state cell, then the effect (dependency list
  \<^verbatim>\<open>[]\<close>, so it runs at mount only) creates \<^verbatim>\<open>onHash\<close> and registers it.
\<close>

definition useRoute_mount :: "browser \<Rightarrow> app" where
  "useRoute_mount b =
     (let h = new_closure (listeners b) in
      \<lparr>fragment = fragment b,
       listeners = addEventListener h (listeners b),
       queued = queued b,
       route = read_route b,
       onHash = Some h,
       rerenders = 0,
       stale = False\<rparr>)"

text \<open>The listener's body, line 60.\<close>

definition onHash_body :: "app \<Rightarrow> app" where
  "onHash_body a = setRoute (read_route a) a"

text \<open>
  The browser dispatches one queued \<^verbatim>\<open>hashchange\<close>: the listener runs if it is still
  registered. Listeners of other scripts are outside this program.
\<close>

definition dispatch_hashchange :: "app \<Rightarrow> app" where
  "dispatch_hashchange a =
     (if queued a = 0 then a
      else let a' = a\<lparr>queued := queued a - 1\<rparr> in
           (case onHash a' of
              None \<Rightarrow> a'
            | Some h \<Rightarrow> if h \<in> set (listeners a') then onHash_body a' else a'))"

text \<open>\<^verbatim>\<open>nav\<close>, line 64.\<close>

definition nav :: "string \<Rightarrow> app \<Rightarrow> app" where
  "nav to a = location_hash_set to a"


text \<open>The effect's cleanup, line 62, run when the component is unmounted.\<close>

definition useRoute_unmount :: "app \<Rightarrow> app" where
  "useRoute_unmount a =
     (case onHash a of
        None \<Rightarrow> a
      | Some h \<Rightarrow> a\<lparr>listeners := removeEventListener h (listeners a), onHash := None\<rparr>)"


section \<open>Views and the page composer\<close>

text \<open>What \<^verbatim>\<open>GalleryPage\<close> renders for one image, and \<^verbatim>\<open>FactoryDocuments\<close> for one document.\<close>

record figure =
  fig_key :: nat
  fig_src :: string
  fig_alt :: string
  fig_caption :: string

record doc_card =
  card_key :: nat
  card_heading :: string
  card_size :: string
  card_notes :: string
  card_view_href :: string
  card_view_label :: string
  card_download_href :: string

datatype view =
    HomeView
  | BuildsView
  | GalleryView "figure list"
  | DocumentsView "doc_card list"
  | ContactView
  | NotFoundView

definition GalleryPage :: view where
  "GalleryPage =
     GalleryView (map (\<lambda>img. \<lparr>fig_key = img_id img, fig_src = img_src img,
                                fig_alt = img_title img, fig_caption = img_title img\<rparr>) GALLERY)"

text \<open>
  \<^verbatim>\<open>FactoryDocuments({ docs = FACTORY_DOCS })\<close>: an absent prop takes the default. The
  state cell \<^verbatim>\<open>list\<close> starts as \<^verbatim>\<open>docs\<close> and is never set, the effect's body being
  a comment.
\<close>

definition FactoryDocuments :: "document list option \<Rightarrow> view" where
  "FactoryDocuments docs_prop =
     (let docs = (case docs_prop of None \<Rightarrow> FACTORY_DOCS | Some ds \<Rightarrow> ds);
          list = docs
      in DocumentsView
           (map (\<lambda>d. \<lparr>card_key = doc_id d, card_heading = doc_name d, card_size = doc_size d,
                       card_notes = doc_notes d, card_view_href = doc_url d,
                       card_view_label = ''Open '' @ doc_name d,
                       card_download_href = doc_url d\<rparr>) list))"

definition BuildsPage :: view where
  "BuildsPage = BuildsView"

definition ContactPage :: view where
  "ContactPage = ContactView"

text \<open>
  \<^verbatim>\<open>{cond && <X />}\<close> as a child: \<^verbatim>\<open>X\<close> when the condition holds, nothing when it is
  \<^verbatim>\<open>false\<close>.
\<close>

definition jsx_and :: "bool \<Rightarrow> view \<Rightarrow> view list" where
  "jsx_and c v = (if c then [v] else [])"

text \<open>The six guarded children of the inner \<^verbatim>\<open><main>\<close> of \<^verbatim>\<open>App\<close>, lines 318 to 347.\<close>

definition known_routes :: "string list" where
  "known_routes = [''/'', ''/builds'', ''/gallery'', ''/docs'', ''/contact'']"

definition App_children :: "string \<Rightarrow> (bool \<times> view) list" where
  "App_children r =
     [(r = ''/'', HomeView),
      (r = ''/builds'', BuildsPage),
      (r = ''/gallery'', GalleryPage),
      (r = ''/docs'', FactoryDocuments None),
      (r = ''/contact'', ContactPage),
      (\<not> js_includes known_routes r, NotFoundView)]"

definition App_main :: "string \<Rightarrow> view list" where
  "App_main r = concat (map (\<lambda>(c, v). jsx_and c v) (App_children r))"

definition App :: "app \<Rightarrow> view list" where
  "App a = App_main (route a)"


section \<open>The contact form\<close>

text \<open>
  The form of \<^verbatim>\<open>ContactPage\<close>, lines 277 to 285: three controls, each \<^verbatim>\<open>required\<close>,
  the second of \<^verbatim>\<open>type="email"\<close>. What the user has typed is the record below.
\<close>

record contact_form =
  your_name :: string
  your_email :: string
  message_text :: string

text \<open>
  What a submission can do to the world outside the component: open an alert box, or send
  the form as a request, which is the browser's default action for a submitted form.
\<close>

datatype effect = Alert string | Form_request contact_form

text \<open>
  The browser validates the controls before it dispatches \<^verbatim>\<open>submit\<close>. \<^verbatim>\<open>required\<close>
  fails on an empty value. The check that \<^verbatim>\<open>type="email"\<close> adds on a non-empty value is
  the browser's own; it is a parameter here.
\<close>

definition value_missing :: "string \<Rightarrow> bool" where
  "value_missing v = (v = [])"

definition form_invalid :: "(string \<Rightarrow> bool) \<Rightarrow> contact_form \<Rightarrow> bool" where
  "form_invalid type_mismatch f =
     (value_missing (your_name f) \<or>
      value_missing (your_email f) \<or> type_mismatch (your_email f) \<or>
      value_missing (message_text f))"

record submit_event =
  default_prevented :: bool

text \<open>
  The handler of line 277:
  \<^verbatim>\<open>(e) => { e.preventDefault(); alert('Replace this handler with a real endpoint'); }\<close>.
  It reads no control and calls no state setter.
\<close>

definition onSubmit :: "submit_event \<Rightarrow> app \<Rightarrow> submit_event \<times> effect list \<times> app" where
  "onSubmit e a =
     (e\<lparr>default_prevented := True\<rparr>, [Alert ''Replace this handler with a real endpoint''], a)"

text \<open>
  Pressing Send: an invalid form is not submitted and the handler does not run; otherwise
  the handler runs, and the browser sends the form unless the handler prevented it.
\<close>

definition submit_contact_form ::
  "(string \<Rightarrow> bool) \<Rightarrow> contact_form \<Rightarrow> app \<Rightarrow> effect list \<times> app" where
  "submit_contact_form type_mismatch f a =
     (if form_invalid type_mismatch f then ([], a)
      else (case onSubmit \<lparr>default_prevented = False\<rparr> a of
              (e, effs, a') \<Rightarrow>
                (if default_prevented e then effs else effs @ [Form_request f], a')))"


section \<open>Runs of the application\<close>

text \<open>
  What can happen to a mounted application: a navigation button calls \<^verbatim>\<open>nav\<close>; the
  fragment changes from outside the router (the address bar, back and forward, the
  \<^verbatim>\<open>#/\<close> link of the logo); the browser delivers a queued \<^verbatim>\<open>hashchange\<close>; React
  unmounts the component.
\<close>

datatype event = Nav string | Address string | Hashchange | Unmount

fun step :: "event \<Rightarrow> app \<Rightarrow> app" where
  "step (Nav to) a = nav to a"
| "step (Address f) a = go_to_fragment f a"
| "step Hashchange a = dispatch_hashchange a"
| "step Unmount a = useRoute_unmount a"

definition run :: "event list \<Rightarrow> app \<Rightarrow> app" where
  "run evs a = fold step evs a"

text \<open>
  A mounted application at rest: its listener is registered, no event is waiting, and the
  route is the one the current fragment gives.
\<close>

definition settled :: "app \<Rightarrow> bool" where
  "settled a =
     (queued a = 0 \<and> route a = read_route a \<and>
      (case onHash a of None \<Rightarrow> False | Some h \<Rightarrow> h \<in> set (listeners a)))"

text \<open>
  The listeners of \<^verbatim>\<open>window\<close> while an application mounted in browser \<open>b\<close> runs: those
  of \<open>b\<close> followed by the one the effect added, until the cleanup; those of \<open>b\<close> after it.
\<close>

definition listener_inv :: "browser \<Rightarrow> app \<Rightarrow> bool" where
  "listener_inv b a =
     (case onHash a of
        Some h \<Rightarrow> h = new_closure (listeners b) \<and> listeners a = listeners b @ [h]
      | None \<Rightarrow> listeners a = listeners b)"


section \<open>The composer as the specification words it\<close>

text \<open>
  The specification's page composer: a function from the route to the one view of that
  route, with the "not found" view for every other string.
\<close>

definition composer_spec :: "string \<Rightarrow> view" where
  "composer_spec r =
     (if r = ''/'' then HomeView
      else if r = ''/builds'' then BuildsPage
      else if r = ''/gallery'' then GalleryPage
      else if r = ''/docs'' then FactoryDocuments None
      else if r = ''/contact'' then ContactPage
      else NotFoundView)"


section \<open>Properties of the router's primitives\<close>

lemma js_replace_hash_location_hash: "js_replace_hash (location_hash b) = fragment b"
  by (simp add: location_hash_def)

lemma read_route_eq: "read_route b = (if fragment b = [] then ''/'' else fragment b)"
  by (simp add: read_route_def js_or_def js_replace_hash_location_hash)

lemma read_route_nonempty: "read_route b \<noteq> []"
  by (simp add: read_route_eq)

lemma js_includes_known_routes:
  "js_includes known_routes r \<longleftrightarrow>
     r = ''/'' \<or> r = ''/builds'' \<or> r = ''/gallery'' \<or> r = ''/docs'' \<or> r = ''/contact''"
  by (auto simp: js_includes_def known_routes_def)

text \<open>The children of \<^verbatim>\<open>App\<close> for a route, guard by guard.\<close>

lemma App_main_eq:
  "App_main r =
     [if r = ''/'' then HomeView
      else if r = ''/builds'' then BuildsPage
      else if r = ''/gallery'' then GalleryPage
      else if r = ''/docs'' then FactoryDocuments None
      else if r = ''/contact'' then ContactPage
      else NotFoundView]"
  by (simp add: App_main_def App_children_def jsx_and_def js_includes_known_routes)

text \<open>When at most one element of a list passes a test, no two positions both pass it.\<close>

lemma filter_at_most_one:
  assumes "length (filter P xs) \<le> 1" and "i < j" and "j < length xs"
  shows "\<not> (P (xs ! i) \<and> P (xs ! j))"
proof
  assume both: "P (xs ! i) \<and> P (xs ! j)"
  have split: "xs = take j xs @ drop j xs" by simp
  have "xs ! i \<in> set (take j xs)"
    using assms(2,3) by (auto simp: in_set_conv_nth intro!: exI[of _ i])
  with both have a: "filter P (take j xs) \<noteq> []" by (auto simp: filter_empty_conv)
  have "xs ! j \<in> set (drop j xs)"
    using assms(3) by (metis Cons_nth_drop_Suc list.set_intros(1))
  with both have b: "filter P (drop j xs) \<noteq> []" by (auto simp: filter_empty_conv)
  have "length (filter P xs) = length (filter P (take j xs)) + length (filter P (drop j xs))"
    by (metis append_take_drop_id filter_append length_append)
  moreover have "1 \<le> length (filter P (take j xs))" "1 \<le> length (filter P (drop j xs))"
    using a b by (simp_all add: Suc_le_eq)
  ultimately show False using assms(1) by linarith
qed

text \<open>A new function object is none of the registered listeners.\<close>

lemma new_closure_fresh: "new_closure ls \<notin> set ls"
proof -
  have "\<And>m. \<forall>x \<in> set ls. x \<le> fold max ls m"
  proof (induction ls)
    case Nil show ?case by simp
  next
    case (Cons y ys)
    have mono: "\<And>m. m \<le> fold max ys m"
      by (induction ys) (auto intro: order_trans[OF max.cobounded2])
    show ?case using Cons[of "max y m"] mono[of "max y m"] by auto
  qed
  then show ?thesis unfolding new_closure_def by (metis Suc_n_not_le_n)
qed

text \<open>Mounting in a browser with no event waiting gives an application at rest.\<close>

lemma settled_mount: "queued b = 0 \<Longrightarrow> settled (useRoute_mount b)"
  by (simp add: settled_def useRoute_mount_def Let_def addEventListener_def read_route_eq)

text \<open>
  One fragment change and its delivery, from rest: the route follows the fragment;
  \<^verbatim>\<open>App\<close> is called again when the route is another one, and also when the fragment
  has changed to one of the same route while the component carries an update mark.
\<close>

lemma fragment_change_notifies:
  assumes "settled a"
  shows "route (dispatch_hashchange (go_to_fragment f a)) = js_or f ''/''"
    and "rerenders (dispatch_hashchange (go_to_fragment f a)) =
           rerenders a +
             (if js_or f ''/'' \<noteq> route a then 1
              else if f \<noteq> fragment a \<and> stale a then 1 else 0)"
    and "settled (dispatch_hashchange (go_to_fragment f a))"
  using assms
  by (auto simp: settled_def go_to_fragment_def dispatch_hashchange_def onHash_body_def
      setRoute_def read_route_eq js_or_def Let_def split: option.splits if_splits)

lemma nav_eq: "nav t a = go_to_fragment (hash_fragment t) a"
  by (simp add: nav_def location_hash_set_def)

text \<open>The targets the navigation buttons pass to \<^verbatim>\<open>nav\<close> are stored as they are.\<close>

lemma hash_fragment_nav_targets:
  "hash_fragment ''/'' = ''/''" "hash_fragment ''/builds'' = ''/builds''"
  "hash_fragment ''/gallery'' = ''/gallery''" "hash_fragment ''/docs'' = ''/docs''"
  "hash_fragment ''/contact'' = ''/contact''" "hash_fragment [] = []"
  by (simp_all add: hash_fragment_def strip_leading_hash_def parse_fragment_def
      ascii_tab_or_newline_def fragment_percent_encode_set_def)


text \<open>
  So is every string without a leading \<^verbatim>\<open>#\<close> whose bytes the URL parser neither drops
  nor encodes.
\<close>

lemma hash_fragment_verbatim:
  assumes "\<forall>c \<in> set t. \<not> fragment_percent_encode_set c" and "t = [] \<or> hd t \<noteq> CHR ''#''"
  shows "hash_fragment t = t"
proof -
  have tab: "\<And>c. ascii_tab_or_newline c \<Longrightarrow> fragment_percent_encode_set c"
    by (auto simp: ascii_tab_or_newline_def fragment_percent_encode_set_def)
  have "\<And>s. \<forall>c \<in> set s. \<not> fragment_percent_encode_set c \<Longrightarrow> parse_fragment s = s"
  proof -
    fix s show "\<forall>c \<in> set s. \<not> fragment_percent_encode_set c \<Longrightarrow> parse_fragment s = s"
      using tab by (induction s) (auto simp: parse_fragment_def)
  qed
  moreover have "strip_leading_hash t = t"
    using assms(2) by (cases t) (auto simp: strip_leading_hash_def)
  ultimately show ?thesis using assms(1) by (simp add: hash_fragment_def)
qed

text \<open>How one event treats the listeners and the route.\<close>

lemma listener_inv_mount: "listener_inv b (useRoute_mount b)"
  using new_closure_fresh[of "listeners b"]
  by (simp add: listener_inv_def useRoute_mount_def Let_def addEventListener_def)

lemma step_listeners: "e \<noteq> Unmount \<Longrightarrow> listeners (step e a) = listeners a \<and> onHash (step e a) = onHash a"
  by (cases e)
    (auto simp: nav_def location_hash_set_def go_to_fragment_def dispatch_hashchange_def
      onHash_body_def setRoute_def Let_def split: option.splits)

lemma listener_inv_step: "listener_inv b a \<Longrightarrow> listener_inv b (step e a)"
proof (cases "e = Unmount")
  case True
  assume "listener_inv b a"
  then show ?thesis using True new_closure_fresh[of "listeners b"]
    by (auto simp: listener_inv_def useRoute_unmount_def removeEventListener_def remove1_append
        split: option.splits)
next
  case False
  assume "listener_inv b a"
  then show ?thesis using step_listeners[OF False, of a]
    by (auto simp: listener_inv_def split: option.splits)
qed

lemma listener_inv_run: "listener_inv b a \<Longrightarrow> listener_inv b (run evs a)"
  unfolding run_def by (induction evs arbitrary: a) (auto intro: listener_inv_step)

lemma run_listeners: "Unmount \<notin> set evs \<Longrightarrow> listeners (run evs a) = listeners a \<and> onHash (run evs a) = onHash a"
  unfolding run_def by (induction evs arbitrary: a) (auto simp: step_listeners)

lemma route_nonempty_step: "route a \<noteq> [] \<Longrightarrow> route (step e a) \<noteq> []"
  by (cases e)
    (auto simp: nav_def location_hash_set_def go_to_fragment_def dispatch_hashchange_def
      onHash_body_def setRoute_def useRoute_unmount_def Let_def read_route_nonempty
      split: option.splits)


section \<open>The page composer\<close>

text \<open>
  C1. For each of the five route strings the composer renders the one view of that route,
  and for every other string, the empty string and \<^verbatim>\<open>/unknown-page\<close> among them, it
  renders the "not found" view and none of the five: what \<^verbatim>\<open>App\<close> renders is, for every
  string, exactly the one view the specification's composer names.
\<close>

theorem composer_selects_view: "App_main r = [composer_spec r]"
  by (simp add: App_main_def App_children_def jsx_and_def composer_spec_def
      js_includes_known_routes)

theorem composer_selects_view_witness:
  "App_main ''/unknown-page'' = [NotFoundView] \<and> App_main [] = [NotFoundView] \<and>
   App_main ''/'' = [HomeView] \<and> App_main ''/builds'' = [BuildsPage] \<and>
   App_main ''/gallery'' = [GalleryPage] \<and> App_main ''/docs'' = [FactoryDocuments None] \<and>
   App_main ''/contact'' = [ContactPage]"
  using composer_selects_view[of "''/unknown-page''"] composer_selects_view[of "[]"]
    composer_selects_view[of "''/''"] composer_selects_view[of "''/builds''"]
    composer_selects_view[of "''/gallery''"] composer_selects_view[of "''/docs''"]
    composer_selects_view[of "''/contact''"]
  by (simp add: composer_spec_def)


section \<open>Initialisation of the navigation state\<close>

text \<open>
  C3. A store initialised on an empty fragment has the route \<^verbatim>\<open>/\<close>; in general the initial
  route is the fragment at construction, with \<^verbatim>\<open>/\<close> in place of the empty fragment.
\<close>

theorem initial_route:
  "route (useRoute_mount \<lparr>fragment = [], listeners = ls, queued = q\<rparr>) = ''/'' \<and>
   route (useRoute_mount b) = (if fragment b = [] then ''/'' else fragment b)"
  by (simp add: useRoute_mount_def Let_def read_route_eq)

theorem initial_route_witness:
  "route (useRoute_mount \<lparr>fragment = [], listeners = [], queued = 0\<rparr>) = ''/'' \<and>
   route (useRoute_mount \<lparr>fragment = ''/docs'', listeners = [], queued = 0\<rparr>) = ''/docs''"
  using initial_route[of "[]" 0 "\<lparr>fragment = ''/docs'', listeners = [], queued = 0\<rparr>"]
  by simp


section \<open>Exactly one view\<close>

text \<open>
  C4. For every route string exactly one of the six views is in the composed output: of the
  six guards exactly one holds, so one holds (they are exhaustive) and no two hold together
  (they are pairwise exclusive), and the output has one element.
\<close>

theorem exactly_one_view:
  "length (filter fst (App_children r)) = 1 \<and>
   length (App_main r) = 1 \<and>
   (\<exists>i < length (App_children r). fst (App_children r ! i)) \<and>
   (\<forall>i j. i < j \<and> j < length (App_children r) \<longrightarrow>
      \<not> (fst (App_children r ! i) \<and> fst (App_children r ! j)))"
proof -
  have count: "length (filter fst (App_children r)) = 1"
    by (simp add: App_children_def js_includes_known_routes)
  have len: "length (App_main r) = 1"
    by (simp add: App_main_eq)
  have ex: "\<exists>i < length (App_children r). fst (App_children r ! i)"
  proof -
    have "filter fst (App_children r) \<noteq> []" using count by auto
    then obtain p where "p \<in> set (App_children r)" "fst p"
      by (auto simp: filter_empty_conv)
    then show ?thesis by (auto simp: in_set_conv_nth)
  qed
  have excl: "\<forall>i j. i < j \<and> j < length (App_children r) \<longrightarrow>
      \<not> (fst (App_children r ! i) \<and> fst (App_children r ! j))"
  proof (intro allI impI)
    fix i j assume "i < j \<and> j < length (App_children r)"
    then show "\<not> (fst (App_children r ! i) \<and> fst (App_children r ! j))"
      using filter_at_most_one[of fst "App_children r" i j] count by simp
  qed
  show ?thesis using count len ex excl by blast
qed

theorem exactly_one_view_witness:
  "length (filter fst (App_children ''/docs'')) = 1 \<and>
   \<not> (fst (App_children ''/docs'' ! 3) \<and> fst (App_children ''/docs'' ! 5)) \<and>
   fst (App_children ''/docs'' ! 3)"
proof -
  have "(3::nat) < 5 \<and> 5 < length (App_children ''/docs'')" by (simp add: App_children_def)
  moreover have "fst (App_children ''/docs'' ! 3)" by (simp add: App_children_def)
  ultimately show ?thesis using exactly_one_view[of "''/docs''"] by blast
qed


section \<open>The documents and gallery scenarios\<close>

text \<open>
  C5. Loaded on the fragment \<^verbatim>\<open>/docs\<close>, the application renders the documents view, and
  that view lists exactly the two static documents, by name and with their sizes, in order.
\<close>

theorem docs_route_renders_documents:
  assumes "fragment b = ''/docs''"
  shows "\<exists>cards. App (useRoute_mount b) = [DocumentsView cards] \<and>
           map (\<lambda>c. (card_heading c, card_size c)) cards =
             [(''Factory Service Manual - 1997 XJ.pdf'', ''8.2 MB''),
              (''Wiring Diagrams - Full.pdf'', ''3.9 MB'')]"
proof -
  have "route (useRoute_mount b) = ''/docs''"
    using assms by (simp add: useRoute_mount_def Let_def read_route_eq)
  then have "App (useRoute_mount b) = [FactoryDocuments None]"
    by (simp add: App_def App_main_eq)
  then show ?thesis
    by (simp add: FactoryDocuments_def FACTORY_DOCS_def)
qed

theorem docs_route_renders_documents_witness:
  "\<exists>cards. App (useRoute_mount \<lparr>fragment = ''/docs'', listeners = [], queued = 0\<rparr>) =
             [DocumentsView cards] \<and>
           map (\<lambda>c. (card_heading c, card_size c)) cards =
             [(''Factory Service Manual - 1997 XJ.pdf'', ''8.2 MB''),
              (''Wiring Diagrams - Full.pdf'', ''3.9 MB'')]"
  using docs_route_renders_documents[of "\<lparr>fragment = ''/docs'', listeners = [], queued = 0\<rparr>"]
  by simp

text \<open>
  C6. From rest on another route, \<^verbatim>\<open>nav('/gallery')\<close> and the delivery of its
  \<^verbatim>\<open>hashchange\<close> cause one render and leave no event waiting, the route is then
  \<^verbatim>\<open>/gallery\<close>, and the application renders the gallery view with exactly three entries,
  those of \<^verbatim>\<open>GALLERY\<close>.
\<close>

theorem navigate_gallery:
  assumes "settled a" and "route a \<noteq> ''/gallery''"
  shows "rerenders (dispatch_hashchange (nav ''/gallery'' a)) = rerenders a + 1 \<and>
         queued (dispatch_hashchange (nav ''/gallery'' a)) = 0 \<and>
         route (dispatch_hashchange (nav ''/gallery'' a)) = ''/gallery'' \<and>
         (\<exists>figs. App (dispatch_hashchange (nav ''/gallery'' a)) = [GalleryView figs] \<and>
                 length figs = 3 \<and> map fig_caption figs = map img_title GALLERY)"
proof -
  let ?a' = "dispatch_hashchange (nav ''/gallery'' a)"
  have r: "route ?a' = ''/gallery''"
    using fragment_change_notifies(1)[OF assms(1), of "''/gallery''"]
    by (simp add: nav_eq hash_fragment_nav_targets js_or_def)
  have n: "rerenders ?a' = rerenders a + 1"
    using fragment_change_notifies(2)[OF assms(1), of "''/gallery''"] assms(2)
    by (simp add: nav_eq hash_fragment_nav_targets js_or_def)
  have q: "queued ?a' = 0"
    using fragment_change_notifies(3)[OF assms(1), of "''/gallery''"]
    by (simp add: nav_eq hash_fragment_nav_targets settled_def)
  have "App ?a' = [GalleryPage]"
    by (simp add: App_def r App_main_eq)
  then have "\<exists>figs. App ?a' = [GalleryView figs] \<and> length figs = 3 \<and>
                map fig_caption figs = map img_title GALLERY"
    by (simp add: GalleryPage_def GALLERY_def)
  with r n q show ?thesis by blast
qed

theorem navigate_gallery_witness:
  "route (dispatch_hashchange (nav ''/gallery''
      (useRoute_mount \<lparr>fragment = ''/docs'', listeners = [], queued = 0\<rparr>))) = ''/gallery'' \<and>
   rerenders (dispatch_hashchange (nav ''/gallery''
      (useRoute_mount \<lparr>fragment = ''/docs'', listeners = [], queued = 0\<rparr>))) = 1"
proof -
  let ?a = "useRoute_mount \<lparr>fragment = ''/docs'', listeners = [], queued = 0\<rparr>"
  have s: "settled ?a" by (simp add: settled_mount)
  have r: "route ?a \<noteq> ''/gallery''" "rerenders ?a = 0"
    by (simp_all add: useRoute_mount_def Let_def read_route_eq)
  show ?thesis using navigate_gallery[OF s r(1)] by (simp add: r(2))
qed


section \<open>Totality\<close>

text \<open>
  C7. The composer yields a view for every string: always one view, the "not found" view
  for a string that is none of the five routes. The store takes every fragment as it is,
  at mount and on every later change, with \<^verbatim>\<open>/\<close> for the empty one, and what it holds
  always composes to a view. No operation of the composer or the store has a failing case.
\<close>

theorem composer_total:
  "(\<exists>v. App_main r = [v]) \<and>
   (\<not> js_includes known_routes r \<longrightarrow> App_main r = [NotFoundView]) \<and>
   route (useRoute_mount b) = js_or (fragment b) ''/'' \<and>
   (\<exists>v. App (useRoute_mount b) = [v]) \<and>
   (settled a \<longrightarrow>
      route (dispatch_hashchange (go_to_fragment f a)) = js_or f ''/'' \<and>
      (\<exists>v. App (dispatch_hashchange (go_to_fragment f a)) = [v]))"
proof -
  have total: "\<And>s. \<exists>v. App_main s = [v]" by (simp add: App_main_eq)
  have nf: "\<not> js_includes known_routes r \<longrightarrow> App_main r = [NotFoundView]"
    by (simp add: App_main_eq js_includes_known_routes)
  have init: "route (useRoute_mount b) = js_or (fragment b) ''/''"
    by (simp add: useRoute_mount_def Let_def read_route_eq js_or_def)
  have later: "settled a \<longrightarrow>
      route (dispatch_hashchange (go_to_fragment f a)) = js_or f ''/''"
    using fragment_change_notifies(1) by blast
  show ?thesis using total nf init later by (simp add: App_def)
qed

theorem composer_total_witness:
  "App_main ''/unknown-page'' = [NotFoundView] \<and> App_main [] = [NotFoundView] \<and>
   route (dispatch_hashchange (go_to_fragment ''%%garbage''
      (useRoute_mount \<lparr>fragment = [], listeners = [], queued = 0\<rparr>))) = ''%%garbage''"
proof -
  let ?a = "useRoute_mount \<lparr>fragment = [], listeners = [], queued = 0\<rparr>"
  have s: "settled ?a" by (simp add: settled_mount)
  have k: "\<not> js_includes known_routes ''/unknown-page''" "\<not> js_includes known_routes []"
    by (simp_all add: js_includes_known_routes)
  show ?thesis
    using composer_total[of "''/unknown-page''" "\<lparr>fragment = [], listeners = [], queued = 0\<rparr>" ?a "''%%garbage''"]
      composer_total[of "[]" "\<lparr>fragment = [], listeners = [], queued = 0\<rparr>" ?a "[]"] s k
    by (simp add: js_or_def)
qed


section \<open>Navigation and its notifications\<close>





section \<open>The lifetime of the listener\<close>

text \<open>
  C8. The effect registers its listener exactly once, at mount, as a function object that
  was not registered before; no later event other than the unmount changes the listeners;
  the cleanup removes that listener and nothing else, so the listeners are again those the
  browser had before the mount; and after the cleanup no listener of the application is
  left: a further fragment change no longer reaches the route.
\<close>

theorem listener_acquired_and_released:
  "count_list (listeners (useRoute_mount b)) (new_closure (listeners b)) = 1 \<and>
   onHash (useRoute_mount b) = Some (new_closure (listeners b)) \<and>
   new_closure (listeners b) \<notin> set (listeners b) \<and>
   (Unmount \<notin> set evs \<longrightarrow> listeners (run evs (useRoute_mount b)) = listeners (useRoute_mount b)) \<and>
   listeners (useRoute_unmount (run evs (useRoute_mount b))) = listeners b \<and>
   onHash (useRoute_unmount (run evs (useRoute_mount b))) = None \<and>
   route (dispatch_hashchange (go_to_fragment f (useRoute_unmount (run evs (useRoute_mount b))))) =
     route (run evs (useRoute_mount b))"
proof -
  let ?h = "new_closure (listeners b)"
  let ?a = "run evs (useRoute_mount b)"
  have fresh: "?h \<notin> set (listeners b)" by (rule new_closure_fresh)
  have once: "count_list (listeners (useRoute_mount b)) ?h = 1"
    using fresh by (simp add: useRoute_mount_def Let_def addEventListener_def count_list_0_iff)
  have reg: "onHash (useRoute_mount b) = Some ?h"
    by (simp add: useRoute_mount_def Let_def)
  have keep: "Unmount \<notin> set evs \<longrightarrow> listeners ?a = listeners (useRoute_mount b)"
    using run_listeners by blast
  have inv: "listener_inv b ?a" by (rule listener_inv_run[OF listener_inv_mount])
  have rel: "listeners (useRoute_unmount ?a) = listeners b"
    using inv fresh
    by (auto simp: listener_inv_def useRoute_unmount_def removeEventListener_def remove1_append
        split: option.splits)
  have gone: "onHash (useRoute_unmount ?a) = None"
    by (simp add: useRoute_unmount_def split: option.splits)
  have quiet: "route (dispatch_hashchange (go_to_fragment f (useRoute_unmount ?a))) = route ?a"
    using gone
    by (auto simp: dispatch_hashchange_def go_to_fragment_def Let_def useRoute_unmount_def
        split: option.splits)
  show ?thesis using once reg fresh keep rel gone quiet by blast
qed

theorem listener_acquired_and_released_witness:
  "listeners (run [Nav ''/docs'', Hashchange]
      (useRoute_mount \<lparr>fragment = [], listeners = [4, 2], queued = 0\<rparr>)) = [4, 2, 5] \<and>
   listeners (useRoute_unmount (run [Nav ''/docs'', Hashchange]
      (useRoute_mount \<lparr>fragment = [], listeners = [4, 2], queued = 0\<rparr>))) = [4, 2]"
proof -
  have n: "Unmount \<notin> set [Nav ''/docs'', Hashchange]" by simp
  have m: "listeners (useRoute_mount \<lparr>fragment = [], listeners = [4, 2], queued = 0\<rparr>) = [4, 2, 5]"
    by (simp add: useRoute_mount_def Let_def addEventListener_def new_closure_def)
  show ?thesis
    using listener_acquired_and_released[of "\<lparr>fragment = [], listeners = [4, 2], queued = 0\<rparr>"
        "[Nav ''/docs'', Hashchange]" "[]"] n m
    by simp
qed


section \<open>Submitting the contact form\<close>

text \<open>
  C9. Submitting the contact form leaves the application's state, and so what it renders,
  unchanged, and sends no request. When the name, the email or the message is missing the
  browser's validation stops the submission and nothing happens at all; for a valid form
  the handler runs, and all it does is open the same alert whatever was typed.
\<close>

theorem contact_submit_discards:
  "snd (submit_contact_form type_mismatch f a) = a \<and>
   App (snd (submit_contact_form type_mismatch f a)) = App a \<and>
   Form_request g \<notin> set (fst (submit_contact_form type_mismatch f a)) \<and>
   (your_name f = [] \<or> your_email f = [] \<or> message_text f = [] \<longrightarrow>
      fst (submit_contact_form type_mismatch f a) = []) \<and>
   (\<not> form_invalid type_mismatch f \<longrightarrow>
      fst (submit_contact_form type_mismatch f a) =
        [Alert ''Replace this handler with a real endpoint''])"
  by (auto simp: submit_contact_form_def onSubmit_def form_invalid_def value_missing_def)

theorem contact_submit_discards_witness:
  "submit_contact_form (\<lambda>v. CHR ''@'' \<notin> set v)
      \<lparr>your_name = ''Max'', your_email = ''max@example.com'', message_text = ''Hello''\<rparr>
      (useRoute_mount \<lparr>fragment = ''/contact'', listeners = [], queued = 0\<rparr>) =
     ([Alert ''Replace this handler with a real endpoint''],
      useRoute_mount \<lparr>fragment = ''/contact'', listeners = [], queued = 0\<rparr>) \<and>
   submit_contact_form (\<lambda>v. CHR ''@'' \<notin> set v)
      \<lparr>your_name = ''Max'', your_email = ''max@example.com'', message_text = []\<rparr>
      (useRoute_mount \<lparr>fragment = ''/contact'', listeners = [], queued = 0\<rparr>) =
     ([], useRoute_mount \<lparr>fragment = ''/contact'', listeners = [], queued = 0\<rparr>)"
proof -
  let ?tm = "\<lambda>v. CHR ''@'' \<notin> set v"
  let ?a = "useRoute_mount \<lparr>fragment = ''/contact'', listeners = [], queued = 0\<rparr>"
  let ?f = "\<lparr>your_name = ''Max'', your_email = ''max@example.com'', message_text = ''Hello''\<rparr>"
  let ?g = "\<lparr>your_name = ''Max'', your_email = ''max@example.com'', message_text = []\<rparr>"
  have v: "\<not> form_invalid ?tm ?f" by (simp add: form_invalid_def value_missing_def)
  have e: "your_name ?g = [] \<or> your_email ?g = [] \<or> message_text ?g = []" by simp
  show ?thesis
    using contact_submit_discards[of ?tm ?f ?a ?f] contact_submit_discards[of ?tm ?g ?a ?g] v e
    by (metis prod.collapse)
qed


section \<open>The route is never empty\<close>

text \<open>
  C10. In every state the application reaches from its mount, by navigation, by fragment
  changes from outside, by deliveries of \<^verbatim>\<open>hashchange\<close> and by the unmount, in any order,
  the route is a non-empty string.
\<close>

theorem route_never_empty: "route (run evs (useRoute_mount b)) \<noteq> []"
proof -
  have "\<And>a. route a \<noteq> [] \<Longrightarrow> route (run evs a) \<noteq> []"
  proof (induction evs)
    case Nil
    then show ?case by (simp add: run_def)
  next
    case (Cons e evs)
    have "route (step e a) \<noteq> []" using Cons.prems by (rule route_nonempty_step)
    then have "route (run evs (step e a)) \<noteq> []" by (rule Cons.IH)
    then show ?case by (simp add: run_def)
  qed
  moreover have "route (useRoute_mount b) \<noteq> []"
    by (simp add: useRoute_mount_def Let_def read_route_nonempty)
  ultimately show ?thesis by blast
qed

theorem route_never_empty_witness:
  "route (run [Nav [], Hashchange, Address [], Hashchange, Unmount]
      (useRoute_mount \<lparr>fragment = ''/docs'', listeners = [], queued = 0\<rparr>)) \<noteq> []"
  using route_never_empty[of "[Nav [], Hashchange, Address [], Hashchange, Unmount]"
      "\<lparr>fragment = ''/docs'', listeners = [], queued = 0\<rparr>"]
  by simp

end
